theory Spec2Isabelle
  imports Main
begin

section \<open>The request gate of the dashboard (middleware.js)\<close>

text \<open>
  The gate is the exported function \<open>middleware(request)\<close>. It reads the request, the
  process environment and the clock, and it mutates one module-level table,
  \<open>rateLimitMap\<close>, and the console. The model passes the clock value, the environment
  variable and that state explicitly, and returns the response together with the new
  state.

  \<open>Date.now()\<close> is an integral number of milliseconds, so clock values and window starts
  are integers. A count starts at 1 and is incremented only while it is below the ceiling,
  so it is a natural number and \<open>count++\<close> is exact.
\<close>

subsection \<open>JavaScript values the gate works on\<close>

text \<open>
  A JavaScript string is a list of characters; \<open>null\<close> and \<open>undefined\<close> are \<open>None\<close>.
  \<open>s.startsWith(p)\<close> compares the first \<open>p.length\<close> characters of \<open>s\<close> with \<open>p\<close>.
\<close>

fun startsWith :: "string \<Rightarrow> string \<Rightarrow> bool" where
  "startsWith s [] = True"
| "startsWith [] (c # p) = False"
| "startsWith (a # s) (c # p) = (a = c \<and> startsWith s p)"

text \<open>
  \<open>a || b\<close> on values that are a string or null: the left operand when it is truthy
  (a non-empty string), the right operand otherwise.
\<close>

fun js_or :: "string option \<Rightarrow> string option \<Rightarrow> string option" where
  "js_or (Some (c # cs)) b = Some (c # cs)"
| "js_or (Some []) b = b"
| "js_or None b = b"

text \<open>\<open>a || 'literal'\<close> with a non-empty literal: the result is always a string.\<close>

fun js_or_default :: "string option \<Rightarrow> string \<Rightarrow> string" where
  "js_or_default (Some (c # cs)) d = c # cs"
| "js_or_default (Some []) d = d"
| "js_or_default None d = d"

text \<open>\<open>v?.split(',')[0]\<close>: the part of \<open>v\<close> before its first comma; undefined for null.\<close>

fun split_first :: "string option \<Rightarrow> string option" where
  "split_first None = None"
| "split_first (Some v) = Some (takeWhile (\<lambda>c. c \<noteq> CHR '','') v)"

text \<open>
  A \<open>Map\<close> keeps its entries in insertion order. \<open>get\<close> returns the value of the entry
  with the key, \<open>set\<close> replaces the value of that entry where there is one and appends a new
  entry otherwise.
\<close>

fun Map_get :: "('k \<times> 'v) list \<Rightarrow> 'k \<Rightarrow> 'v option" where
  "Map_get [] k = None"
| "Map_get ((k', v) # kvs) k = (if k' = k then Some v else Map_get kvs k)"

fun Map_set :: "('k \<times> 'v) list \<Rightarrow> 'k \<Rightarrow> 'v \<Rightarrow> ('k \<times> 'v) list" where
  "Map_set [] k v = [(k, v)]"
| "Map_set ((k', v') # kvs) k v =
     (if k' = k then (k, v) # kvs else (k', v') # Map_set kvs k v)"

subsection \<open>Requests, responses and the state of the module\<close>

text \<open>
  What the gate reads of a request: \<open>request.nextUrl.pathname\<close>, the values that
  \<open>request.headers.get\<close> returns for the three headers, and the value that
  \<open>request.nextUrl.searchParams.get('api_key')\<close> returns.
\<close>

record request =
  pathname :: string
  x_forwarded_for :: "string option"
  x_real_ip :: "string option"
  x_api_key :: "string option"
  api_key_param :: "string option"

text \<open>
  \<open>Next hs\<close> is \<open>NextResponse.next()\<close> with the headers \<open>hs\<close> set on it by the gate;
  \<open>Json msg st hs\<close> is \<open>NextResponse.json({ error: msg }, { status: st, headers: hs })\<close>.
\<close>

datatype response =
    Next "(string \<times> string) list"
  | Json string nat "(string \<times> string) list"

datatype console_line = Log string | Warn string

record rate_record =
  timestamp :: int
  count :: nat

record gate_state =
  rateLimitMap :: "(string \<times> rate_record) list"
  console :: "console_line list"

text \<open>The state when the module has been loaded: \<open>new Map()\<close> and nothing printed.\<close>

definition initial_state :: gate_state where
  "initial_state = \<lparr>rateLimitMap = [], console = []\<rparr>"

subsection \<open>Configuration\<close>

definition PROTECTED_ROUTES :: "string list" where
  "PROTECTED_ROUTES =
    [''/api/settings'', ''/api/tokens'', ''/api/relationships'', ''/api/goals'',
     ''/api/learning'', ''/api/workflows'', ''/api/inspiration'', ''/api/bounties'',
     ''/api/content'', ''/api/schedules'', ''/api/calendar'', ''/api/memory'']"

definition PUBLIC_ROUTES :: "string list" where
  "PUBLIC_ROUTES = [''/api/health'', ''/api/setup/status'']"

definition RATE_LIMIT_WINDOW :: int where
  "RATE_LIMIT_WINDOW = 60 * 1000"

definition RATE_LIMIT_MAX :: nat where
  "RATE_LIMIT_MAX = 100"

subsection \<open>checkRateLimit\<close>

text \<open>
  \<open>now\<close> is the value of \<open>Date.now()\<close>. \<open>record.count++\<close> changes the object that the
  table holds, so the entry of \<open>ip\<close> is replaced in place.
\<close>

definition checkRateLimit ::
  "int \<Rightarrow> string \<Rightarrow> (string \<times> rate_record) list \<Rightarrow> bool \<times> (string \<times> rate_record) list" where
  "checkRateLimit now ip m =
     (case Map_get m ip of
        None \<Rightarrow> (True, Map_set m ip \<lparr>timestamp = now, count = 1\<rparr>)
      | Some record \<Rightarrow>
          if now - timestamp record > RATE_LIMIT_WINDOW
          then (True, Map_set m ip \<lparr>timestamp = now, count = 1\<rparr>)
          else if count record \<ge> RATE_LIMIT_MAX then (False, m)
          else (True, Map_set m ip (record\<lparr>count := count record + 1\<rparr>)))"

subsection \<open>middleware\<close>

definition isPublicRoute :: "string \<Rightarrow> bool" where
  "isPublicRoute p = list_ex (\<lambda>route. startsWith p route) PUBLIC_ROUTES"

definition isProtectedRoute :: "string \<Rightarrow> bool" where
  "isProtectedRoute p = list_ex (\<lambda>route. startsWith p route) PROTECTED_ROUTES"

definition client_ip :: "request \<Rightarrow> string" where
  "client_ip req =
     js_or_default (js_or (split_first (x_forwarded_for req)) (x_real_ip req)) ''unknown''"

definition supplied_key :: "request \<Rightarrow> string option" where
  "supplied_key req = js_or (x_api_key req) (api_key_param req)"

definition security_headers :: "(string \<times> string) list" where
  "security_headers =
    [(''X-Content-Type-Options'', ''nosniff''),
     (''X-Frame-Options'', ''DENY''),
     (''X-XSS-Protection'', ''1; mode=block'')]"

definition rate_limited_response :: response where
  "rate_limited_response =
     Json ''Rate limit exceeded. Please slow down.'' 429 [(''Retry-After'', ''60'')]"

definition unauthorized_response :: response where
  "unauthorized_response = Json ''Unauthorized - Invalid or missing API key'' 401 []"

text \<open>
  \<open>expectedKey\<close> is \<open>process.env.DASHBOARD_API_KEY\<close>: \<open>None\<close> when the variable is not
  set. \<open>!expectedKey\<close> holds for an unset variable and for the empty string.
\<close>

fun falsy :: "string option \<Rightarrow> bool" where
  "falsy None = True"
| "falsy (Some s) = (s = [])"

definition middleware ::
  "string option \<Rightarrow> int \<Rightarrow> request \<Rightarrow> gate_state \<Rightarrow> response \<times> gate_state" where
  "middleware expectedKey now req s =
     (if \<not> startsWith (pathname req) ''/api/'' then (Next [], s)
      else if isPublicRoute (pathname req) then (Next [], s)
      else
        let ip = client_ip req;
            (ok, m) = checkRateLimit now ip (rateLimitMap s);
            s1 = s\<lparr>rateLimitMap := m\<rparr>
        in
        if \<not> ok then
          (rate_limited_response,
           s1\<lparr>console := console s1 @
              [Warn (''[SECURITY] Rate limit exceeded for '' @ ip @ '': '' @ pathname req)]\<rparr>)
        else if isProtectedRoute (pathname req) then
          (if falsy expectedKey then
             (Next [],
              s1\<lparr>console := console s1 @
                 [Log (''[INFO] DASHBOARD_API_KEY not set - allowing unauthenticated access to: ''
                       @ pathname req)]\<rparr>)
           else if supplied_key req \<noteq> expectedKey then
             (unauthorized_response,
              s1\<lparr>console := console s1 @
                 [Warn (''[SECURITY] Unauthorized API access attempt: '' @ pathname req
                        @ '' from '' @ ip)]\<rparr>)
           else (Next security_headers, s1))
        else (Next security_headers, s1))"

text \<open>A sequence of invocations, each with the clock value it reads.\<close>

fun run :: "string option \<Rightarrow> (int \<times> request) list \<Rightarrow> gate_state \<Rightarrow> response list \<times> gate_state" where
  "run expectedKey [] s = ([], s)"
| "run expectedKey ((now, req) # rest) s =
     (let (resp, s1) = middleware expectedKey now req s;
          (resps, s2) = run expectedKey rest s1
      in (resp # resps, s2))"

subsection \<open>Vocabulary of the properties\<close>

text \<open>
  A request is counted when it reaches the rate limiter: its path starts with \<open>/api/\<close>
  and no public route is a prefix of it.
\<close>

definition counted :: "request \<Rightarrow> bool" where
  "counted req = (startsWith (pathname req) ''/api/'' \<and> \<not> isPublicRoute (pathname req))"

text \<open>The window of a record has expired at time \<open>now\<close>.\<close>

definition expired :: "int \<Rightarrow> rate_record \<Rightarrow> bool" where
  "expired now r = (now - timestamp r > RATE_LIMIT_WINDOW)"

text \<open>
  An identifier is under the rate ceiling at time \<open>now\<close>: it has no record, or the window of
  its record has expired, or the count of its record is below the ceiling.
\<close>

definition under_ceiling :: "int \<Rightarrow> string \<Rightarrow> (string \<times> rate_record) list \<Rightarrow> bool" where
  "under_ceiling now ip m =
     (case Map_get m ip of None \<Rightarrow> True | Some r \<Rightarrow> expired now r \<or> count r < RATE_LIMIT_MAX)"



text \<open>Requests of the scenario of the specification.\<close>

definition goals_request :: request where
  "goals_request = \<lparr>pathname = ''/api/goals'', x_forwarded_for = Some ''1.2.3.4'',
     x_real_ip = None, x_api_key = Some ''abc123'', api_key_param = None\<rparr>"

definition health_request :: request where
  "health_request = \<lparr>pathname = ''/api/health'', x_forwarded_for = Some ''5.6.7.8'',
     x_real_ip = None, x_api_key = None, api_key_param = None\<rparr>"


definition settings_request :: "string option \<Rightarrow> string option \<Rightarrow> request" where
  "settings_request header param = \<lparr>pathname = ''/api/settings'', x_forwarded_for = None,
     x_real_ip = None, x_api_key = header, api_key_param = param\<rparr>"

text \<open>A table in which the identifier \<open>ip\<close> has used \<open>c\<close> requests of a window opened at 0.\<close>

definition used_state :: "string \<Rightarrow> nat \<Rightarrow> gate_state" where
  "used_state ip c = \<lparr>rateLimitMap = [(ip, \<lparr>timestamp = 0, count = c\<rparr>)], console = []\<rparr>"



section \<open>Properties\<close>

subsection \<open>Routes\<close>

lemma startsWith_Cons: "startsWith s (c # p) = (\<exists>t. s = c # t \<and> startsWith t p)"
  by (cases s) auto

lemma startsWith_append: "startsWith s p = (\<exists>r. s = p @ r)"
  by (induction s p rule: startsWith.induct) auto

lemma protected_is_api: "isProtectedRoute p \<Longrightarrow> startsWith p ''/api/''"
  unfolding isProtectedRoute_def PROTECTED_ROUTES_def
  by (auto simp: startsWith_Cons)

lemma protected_not_public: "isProtectedRoute p \<Longrightarrow> \<not> isPublicRoute p"
  unfolding isProtectedRoute_def PROTECTED_ROUTES_def isPublicRoute_def PUBLIC_ROUTES_def
  by (auto simp: startsWith_Cons)

lemma public_is_api: "isPublicRoute p \<Longrightarrow> startsWith p ''/api/''"
  unfolding isPublicRoute_def PUBLIC_ROUTES_def
  by (auto simp: startsWith_Cons)

lemma protected_counted: "isProtectedRoute (pathname req) \<Longrightarrow> counted req"
  by (simp add: counted_def protected_is_api protected_not_public)

lemma client_ip_nonempty: "client_ip req \<noteq> []"
  by (cases "(js_or (split_first (x_forwarded_for req)) (x_real_ip req), ''unknown'')"
      rule: js_or_default.cases) (simp_all add: client_ip_def)

subsection \<open>The table\<close>

lemma Map_get_set: "Map_get (Map_set m k v) k' = (if k' = k then Some v else Map_get m k')"
  by (induction m) auto

lemma keys_Map_set:
  "map fst (Map_set m k v) = (if k \<in> fst ` set m then map fst m else map fst m @ [k])"
  by (induction m) force+

lemma distinct_Map_set: "distinct (map fst m) \<Longrightarrow> distinct (map fst (Map_set m k v))"
  by (simp add: keys_Map_set)

lemma checkRateLimit_ok: "fst (checkRateLimit now ip m) = under_ceiling now ip m"
  by (auto simp: checkRateLimit_def under_ceiling_def expired_def split: option.splits)

lemma checkRateLimit_distinct:
  "distinct (map fst m) \<Longrightarrow> distinct (map fst (snd (checkRateLimit now ip m)))"
  by (auto simp: checkRateLimit_def distinct_Map_set split: option.splits)

lemma checkRateLimit_step:
  assumes "Map_get m k = Some r" and "Map_get (snd (checkRateLimit now ip m)) k = Some r'"
  shows "r' = r \<or> (now - timestamp r > RATE_LIMIT_WINDOW \<and> r' = \<lparr>timestamp = now, count = 1\<rparr>)
       \<or> (now - timestamp r \<le> RATE_LIMIT_WINDOW \<and> r' = r\<lparr>count := count r + 1\<rparr>)"
  using assms
  by (auto simp: checkRateLimit_def Map_get_set split: option.splits if_splits)

subsection \<open>One invocation\<close>

lemma middleware_not_counted: "\<not> counted req \<Longrightarrow> middleware e now req s = (Next [], s)"
  by (simp add: middleware_def counted_def)

lemma middleware_table:
  "counted req \<Longrightarrow>
     rateLimitMap (snd (middleware e now req s)) =
       snd (checkRateLimit now (client_ip req) (rateLimitMap s))"
  by (simp add: middleware_def counted_def Let_def split: prod.splits)


lemma middleware_distinct:
  "distinct (map fst (rateLimitMap s)) \<Longrightarrow>
   distinct (map fst (rateLimitMap (snd (middleware e now req s))))"
  by (cases "counted req")
     (simp_all add: middleware_not_counted middleware_table checkRateLimit_distinct)




text \<open>
  A request to an API route that is neither public nor protected, under the ceiling, is
  forwarded with the security headers.
\<close>

lemma unprotected_forwarded_with_headers:
  assumes "counted req" and "\<not> isProtectedRoute (pathname req)"
      and "under_ceiling now (client_ip req) (rateLimitMap s)"
  shows "fst (middleware e now req s) = Next security_headers"
  using assms
  by (auto simp: middleware_def counted_def Let_def checkRateLimit_ok[symmetric]
        split: prod.splits)



subsection \<open>Sequences of invocations\<close>


lemma run_Cons_snd:
  "snd (run e ((t, req) # reqs) s) = snd (run e reqs (snd (middleware e t req s)))"
  by (simp split: prod.splits)


lemma run_distinct:
  "distinct (map fst (rateLimitMap s)) \<Longrightarrow>
   distinct (map fst (rateLimitMap (snd (run e reqs s))))"
proof (induction reqs arbitrary: s)
  case Nil
  then show ?case by simp
next
  case (Cons a reqs)
  obtain now req where a: "a = (now, req)" by (cases a)
  have "distinct (map fst (rateLimitMap (snd (middleware e now req s))))"
    using Cons.prems by (rule middleware_distinct)
  from Cons.IH[OF this] show ?case
    by (simp add: a run_Cons_snd del: run.simps)
qed



section \<open>The claims\<close>







text \<open>
  C3 (security headers on every forwarded request). The claim counts a request to a
  protected route with no secret configured among the requests that pass all checks, and
  so expects the three security headers on it. The gate returns from that branch before
  the headers are set: the request below is a counted request to a protected route, under
  the ceiling, with no secret configured, and it is forwarded with no header at all. The
  two sibling paths (route not protected, see \<open>unprotected_forwarded_with_headers\<close>;
  protected with the matching key) do set the headers.
\<close>

theorem fail_open_without_security_headers:
  "counted (settings_request None None)
   \<and> isProtectedRoute (pathname (settings_request None None))
   \<and> under_ceiling 0 (client_ip (settings_request None None)) (rateLimitMap initial_state)
   \<and> falsy None
   \<and> fst (middleware None 0 (settings_request None None) initial_state) = Next []
   \<and> fst (middleware None 0 (settings_request None None) initial_state) \<noteq> Next security_headers"
  by (simp add: settings_request_def initial_state_def under_ceiling_def counted_def
        isProtectedRoute_def PROTECTED_ROUTES_def isPublicRoute_def PUBLIC_ROUTES_def
        middleware_def checkRateLimit_def client_ip_def security_headers_def)

text \<open>
  C4 (fail-open default). When \<open>DASHBOARD_API_KEY\<close> is not set (or is the empty string),
  every request to a protected route whose identifier is under the rate ceiling is
  forwarded, whatever credential it carries or lacks, and the gate prints the line that
  warns of the missing key (with \<open>console.log\<close>, tagged \<open>[INFO]\<close>). The response
  is the bare \<open>NextResponse.next()\<close>.
\<close>

theorem fail_open:
  assumes "falsy expectedKey" and "isProtectedRoute (pathname req)"
      and "under_ceiling now (client_ip req) (rateLimitMap s)"
  shows "fst (middleware expectedKey now req s) = Next [] \<and>
         console (snd (middleware expectedKey now req s)) = console s @
           [Log (''[INFO] DASHBOARD_API_KEY not set - allowing unauthenticated access to: ''
                 @ pathname req)]"
proof -
  from assms(2) have "counted req" by (rule protected_counted)
  then have "startsWith (pathname req) ''/api/''" "\<not> isPublicRoute (pathname req)"
    by (simp_all add: counted_def)
  moreover from assms(3) have "fst (checkRateLimit now (client_ip req) (rateLimitMap s))"
    by (simp add: checkRateLimit_ok)
  ultimately show ?thesis
    using assms(1,2) by (auto simp: middleware_def Let_def split: prod.splits)
qed

text \<open>A request to \<open>/api/settings\<close> with no header and no query parameter, no key set.\<close>

theorem fail_open_witness:
  "falsy None \<and> isProtectedRoute (pathname (settings_request None None))
   \<and> under_ceiling 0 (client_ip (settings_request None None)) (rateLimitMap initial_state)
   \<and> supplied_key (settings_request None None) = None
   \<and> fst (middleware None 0 (settings_request None None) initial_state) = Next []
   \<and> console (snd (middleware None 0 (settings_request None None) initial_state)) =
       [Log ''[INFO] DASHBOARD_API_KEY not set - allowing unauthenticated access to: /api/settings'']"
proof -
  have a: "falsy None" by simp
  have p: "isProtectedRoute (pathname (settings_request None None))"
    by (simp add: settings_request_def isProtectedRoute_def PROTECTED_ROUTES_def)
  have u: "under_ceiling 0 (client_ip (settings_request None None)) (rateLimitMap initial_state)"
    by (simp add: under_ceiling_def initial_state_def)
  have k: "supplied_key (settings_request None None) = None"
    by (simp add: supplied_key_def settings_request_def)
  from fail_open[OF a p u] a p u k show ?thesis
    by (simp add: initial_state_def settings_request_def)
qed

text \<open>
  C5 (credential enforcement). When \<open>DASHBOARD_API_KEY\<close> is set to a non-empty secret,
  a request to a protected route whose identifier is under the rate ceiling is answered
  with the unauthorized rejection when the supplied key differs from the secret or is
  missing, and is forwarded (with the security headers) when the supplied key is the
  secret. The supplied key is the value of the \<open>x-api-key\<close> header when that is a non-empty
  string, and the value of the \<open>api_key\<close> query parameter otherwise.
\<close>

theorem credential_enforcement:
  assumes "expectedKey = Some secret" and "secret \<noteq> []"
      and "isProtectedRoute (pathname req)"
      and "under_ceiling now (client_ip req) (rateLimitMap s)"
  shows "(supplied_key req \<noteq> Some secret \<longrightarrow>
            fst (middleware expectedKey now req s) = unauthorized_response) \<and>
         (supplied_key req = Some secret \<longrightarrow>
            fst (middleware expectedKey now req s) = Next security_headers) \<and>
         supplied_key req =
           (case x_api_key req of Some (c # cs) \<Rightarrow> Some (c # cs) | _ \<Rightarrow> api_key_param req)"
proof -
  from assms(3) have "counted req" by (rule protected_counted)
  then have "startsWith (pathname req) ''/api/''" "\<not> isPublicRoute (pathname req)"
    by (simp_all add: counted_def)
  moreover from assms(4) have "fst (checkRateLimit now (client_ip req) (rateLimitMap s))"
    by (simp add: checkRateLimit_ok)
  ultimately have "(supplied_key req \<noteq> Some secret \<longrightarrow>
            fst (middleware expectedKey now req s) = unauthorized_response) \<and>
         (supplied_key req = Some secret \<longrightarrow>
            fst (middleware expectedKey now req s) = Next security_headers)"
    using assms(1,2,3) by (auto simp: middleware_def Let_def split: prod.splits)
  moreover have "supplied_key req =
           (case x_api_key req of Some (c # cs) \<Rightarrow> Some (c # cs) | _ \<Rightarrow> api_key_param req)"
    by (cases "(x_api_key req, api_key_param req)" rule: js_or.cases)
       (simp_all add: supplied_key_def)
  ultimately show ?thesis by blast
qed

text \<open>
  The scenario of the specification, secret \<open>abc123\<close>: the header \<open>wrong\<close> is rejected,
  no key at all is rejected, the header \<open>abc123\<close> is admitted, and so is the query
  parameter \<open>abc123\<close> without a header.
\<close>

theorem credential_enforcement_witness:
  "''abc123'' \<noteq> [] \<and> isProtectedRoute ''/api/settings''
   \<and> under_ceiling 0 ''unknown'' (rateLimitMap initial_state)
   \<and> fst (middleware (Some ''abc123'') 0 (settings_request (Some ''wrong'') None) initial_state)
        = unauthorized_response
   \<and> fst (middleware (Some ''abc123'') 0 (settings_request None None) initial_state)
        = unauthorized_response
   \<and> fst (middleware (Some ''abc123'') 0 (settings_request (Some ''abc123'') None) initial_state)
        = Next security_headers
   \<and> fst (middleware (Some ''abc123'') 0 (settings_request None (Some ''abc123'')) initial_state)
        = Next security_headers"
proof -
  have n: "''abc123'' \<noteq> []" by simp
  have p: "isProtectedRoute (pathname (settings_request h q))" for h q
    by (simp add: settings_request_def isProtectedRoute_def PROTECTED_ROUTES_def)
  have u: "under_ceiling 0 (client_ip (settings_request h q)) (rateLimitMap initial_state)" for h q
    by (simp add: under_ceiling_def initial_state_def)
  have k: "supplied_key (settings_request (Some ''wrong'') None) = Some ''wrong''"
    "supplied_key (settings_request None None) = None"
    "supplied_key (settings_request (Some ''abc123'') None) = Some ''abc123''"
    "supplied_key (settings_request None (Some ''abc123'')) = Some ''abc123''"
    by (simp_all add: supplied_key_def settings_request_def)
  have p': "isProtectedRoute ''/api/settings''" using p[of None None]
    by (simp add: settings_request_def)
  have u': "under_ceiling 0 ''unknown'' (rateLimitMap initial_state)"
    by (simp add: under_ceiling_def initial_state_def)
  note ce = credential_enforcement[OF refl n p u]
  from ce[of "Some ''wrong''" None] ce[of None None] ce[of "Some ''abc123''" None]
    ce[of None "Some ''abc123''"] n p' u'
  show ?thesis by (simp add: k)
qed

text \<open>
  C6 (public-route bypass). A request whose path has a public route as a prefix is answered
  with the bare \<open>NextResponse.next()\<close> and the state of the module is returned as it was:
  for every key setting, every credential, every clock value and every table, also one in
  which the identifier has exhausted its window. The response is the same for any two
  states, so no record is read, and no record is written.
\<close>

theorem public_bypass:
  assumes "isPublicRoute (pathname req)"
  shows "middleware e now req s = (Next [], s) \<and>
         fst (middleware e now req s) = fst (middleware e now req s2)"
  using assms by (simp add: middleware_def)

text \<open>
  5.6.7.8 has exhausted its window: its request to \<open>/api/goals\<close> is rejected, its request
  to \<open>/api/health\<close> at the same instant is forwarded and the table stays as it was.
\<close>

theorem public_bypass_witness:
  "isPublicRoute (pathname health_request)
   \<and> client_ip health_request = ''5.6.7.8''
   \<and> fst (middleware (Some ''abc123'') 0 (health_request\<lparr>pathname := ''/api/goals''\<rparr>)
          (used_state ''5.6.7.8'' 100)) = rate_limited_response
   \<and> middleware (Some ''abc123'') 0 health_request (used_state ''5.6.7.8'' 100)
        = (Next [], used_state ''5.6.7.8'' 100)"
proof -
  have p: "isPublicRoute (pathname health_request)"
    by (simp add: health_request_def isPublicRoute_def PUBLIC_ROUTES_def)
  have i: "client_ip health_request = ''5.6.7.8''"
    by (simp add: health_request_def client_ip_def)
  have r: "fst (middleware (Some ''abc123'') 0 (health_request\<lparr>pathname := ''/api/goals''\<rparr>)
          (used_state ''5.6.7.8'' 100)) = rate_limited_response"
    by (simp add: middleware_def health_request_def used_state_def isPublicRoute_def
          PUBLIC_ROUTES_def client_ip_def checkRateLimit_def RATE_LIMIT_WINDOW_def
          RATE_LIMIT_MAX_def)
  from public_bypass[OF p, of "Some ''abc123''" 0 "used_state ''5.6.7.8'' 100"] p i r
  show ?thesis by simp
qed

text \<open>
  C7 (rejected responses). Every response of the gate that is not a forward is one of two
  JSON responses: status 429, body \<open>{ error: 'Rate limit exceeded. Please slow down.' }\<close>
  and the single header \<open>Retry-After: 60\<close>; or status 401, body
  \<open>{ error: 'Unauthorized - Invalid or missing API key' }\<close> and no header set by the gate
  (so no retry hint). Neither carries any of the three security headers.
\<close>

theorem rejected_responses:
  assumes "fst (middleware e now req s) = Json msg st hs"
  shows "list_all (\<lambda>h. h \<notin> set hs \<and> fst h \<notin> fst ` set hs) security_headers \<and>
         ((st = 429 \<and> msg = ''Rate limit exceeded. Please slow down.''
             \<and> hs = [(''Retry-After'', ''60'')]) \<or>
          (st = 401 \<and> msg = ''Unauthorized - Invalid or missing API key'' \<and> hs = []))"
  using assms
  by (auto simp: middleware_def Let_def rate_limited_response_def unauthorized_response_def
      security_headers_def split: prod.splits if_splits)

text \<open>
  Both rejections occur: the 101st request of a window, and a wrong key on
  \<open>/api/settings\<close>.
\<close>

theorem rejected_responses_witness:
  "fst (middleware (Some ''abc123'') 0 goals_request (used_state ''1.2.3.4'' 100))
     = Json ''Rate limit exceeded. Please slow down.'' 429 [(''Retry-After'', ''60'')]
   \<and> fst (middleware (Some ''abc123'') 0 (settings_request (Some ''wrong'') None) initial_state)
     = Json ''Unauthorized - Invalid or missing API key'' 401 []
   \<and> list_all (\<lambda>h. h \<notin> set [(''Retry-After'', ''60'')]
                  \<and> fst h \<notin> fst ` set [(''Retry-After'', ''60'')]) security_headers
   \<and> list_all (\<lambda>h. h \<notin> set [] \<and> fst h \<notin> fst ` set []) security_headers"
proof -
  have a: "fst (middleware (Some ''abc123'') 0 goals_request (used_state ''1.2.3.4'' 100))
     = Json ''Rate limit exceeded. Please slow down.'' 429 [(''Retry-After'', ''60'')]"
    by (simp add: Let_def middleware_def goals_request_def used_state_def isPublicRoute_def
          PUBLIC_ROUTES_def client_ip_def checkRateLimit_def RATE_LIMIT_WINDOW_def
          RATE_LIMIT_MAX_def rate_limited_response_def)
  have b: "fst (middleware (Some ''abc123'') 0 (settings_request (Some ''wrong'') None)
                 initial_state)
     = Json ''Unauthorized - Invalid or missing API key'' 401 []"
    by (simp add: Let_def middleware_def settings_request_def initial_state_def isPublicRoute_def
          PUBLIC_ROUTES_def isProtectedRoute_def PROTECTED_ROUTES_def client_ip_def
          checkRateLimit_def supplied_key_def unauthorized_response_def)
  from rejected_responses[OF a] rejected_responses[OF b] a b
  show ?thesis by simp
qed

text \<open>
  C8 (a rate-limit rejection leaves the table alone). When \<open>checkRateLimit\<close> answers false
  it returns the table it was given; when the gate answers with status 429, the table after
  the invocation is the table before it: no count is incremented and no window start is
  changed, for any identifier.
\<close>

theorem rate_rejection_leaves_table:
  "(fst (checkRateLimit now ip m) = False \<longrightarrow> snd (checkRateLimit now ip m) = m) \<and>
   (fst (middleware e now req s) = Json msg 429 hs \<longrightarrow>
      rateLimitMap (snd (middleware e now req s)) = rateLimitMap s)"
proof -
  have a: "fst (checkRateLimit now ip m) = False \<longrightarrow> snd (checkRateLimit now ip m) = m"
    for ip m
    by (auto simp: checkRateLimit_def split: option.splits)
  have b: "rateLimitMap (snd (middleware e now req s)) = rateLimitMap s"
    if h: "fst (middleware e now req s) = Json msg 429 hs"
  proof (cases "counted req")
    case False
    then show ?thesis by (simp add: middleware_not_counted)
  next
    case True
    from h have "\<not> fst (checkRateLimit now (client_ip req) (rateLimitMap s))"
      by (auto simp: middleware_def Let_def unauthorized_response_def
            split: prod.splits if_splits)
    with a True show ?thesis by (simp add: middleware_table)
  qed
  from a b show ?thesis by blast
qed

theorem rate_rejection_leaves_table_witness:
  "fst (checkRateLimit 5 ''1.2.3.4'' (rateLimitMap (used_state ''1.2.3.4'' 100))) = False
   \<and> snd (checkRateLimit 5 ''1.2.3.4'' (rateLimitMap (used_state ''1.2.3.4'' 100)))
        = [(''1.2.3.4'', \<lparr>timestamp = 0, count = 100\<rparr>)]
   \<and> fst (middleware (Some ''abc123'') 5 goals_request (used_state ''1.2.3.4'' 100))
        = Json ''Rate limit exceeded. Please slow down.'' 429 [(''Retry-After'', ''60'')]
   \<and> rateLimitMap (snd (middleware (Some ''abc123'') 5 goals_request
         (used_state ''1.2.3.4'' 100)))
        = [(''1.2.3.4'', \<lparr>timestamp = 0, count = 100\<rparr>)]"
proof -
  have a: "fst (checkRateLimit 5 ''1.2.3.4'' (rateLimitMap (used_state ''1.2.3.4'' 100))) = False"
    by (simp add: checkRateLimit_def used_state_def RATE_LIMIT_WINDOW_def RATE_LIMIT_MAX_def)
  have b: "fst (middleware (Some ''abc123'') 5 goals_request (used_state ''1.2.3.4'' 100))
     = Json ''Rate limit exceeded. Please slow down.'' 429 [(''Retry-After'', ''60'')]"
    by (simp add: Let_def middleware_def goals_request_def used_state_def isPublicRoute_def
          PUBLIC_ROUTES_def client_ip_def checkRateLimit_def RATE_LIMIT_WINDOW_def
          RATE_LIMIT_MAX_def rate_limited_response_def)
  have u: "rateLimitMap (used_state ''1.2.3.4'' 100) = [(''1.2.3.4'', \<lparr>timestamp = 0, count = 100\<rparr>)]"
    by (simp add: used_state_def)
  from rate_rejection_leaves_table[of 5 "''1.2.3.4''" "rateLimitMap (used_state ''1.2.3.4'' 100)"
      "Some ''abc123''" goals_request "used_state ''1.2.3.4'' 100"
      "''Rate limit exceeded. Please slow down.''" "[(''Retry-After'', ''60'')]"] a b
  show ?thesis by (simp add: u)
qed

text \<open>
  C9 (invariant of the rate table). Start from any table with at most one record per
  identifier (the table of the loaded module is empty) and run any sequence of
  invocations. The table reached has at most one record per identifier: the keys of its
  entries are pairwise distinct. And in any further invocation at clock value \<open>now\<close>, a
  record \<open>r\<close> of the table either stays as it is, or is reset to window start \<open>now\<close> and
  count 1 when \<open>now - timestamp r\<close> exceeds the window duration, or has its count
  incremented when \<open>now - timestamp r\<close> is at most the window duration. So a count is
  incremented only while \<open>now - timestamp r \<le> RATE_LIMIT_WINDOW\<close>.
\<close>

theorem rate_table_invariant:
  assumes "distinct (map fst (rateLimitMap s0))"
  shows "distinct (map fst (rateLimitMap (snd (run e reqs s0)))) \<and>
         (Map_get (rateLimitMap (snd (run e reqs s0))) ip = Some r \<and>
          Map_get (rateLimitMap (snd (middleware e now req (snd (run e reqs s0))))) ip = Some r'
          \<longrightarrow>
            (r' = r \<or>
             (now - timestamp r > RATE_LIMIT_WINDOW \<and> r' = \<lparr>timestamp = now, count = 1\<rparr>) \<or>
             (now - timestamp r \<le> RATE_LIMIT_WINDOW \<and> r' = r\<lparr>count := count r + 1\<rparr>)) \<and>
            (r' = r\<lparr>count := count r + 1\<rparr> \<longrightarrow> now - timestamp r \<le> RATE_LIMIT_WINDOW))"
proof -
  let ?s = "snd (run e reqs s0)"
  let ?s' = "snd (middleware e now req ?s)"
  have d: "distinct (map fst (rateLimitMap ?s))"
    using assms by (rule run_distinct)
  have t: "r' = r \<or>
             (now - timestamp r > RATE_LIMIT_WINDOW \<and> r' = \<lparr>timestamp = now, count = 1\<rparr>) \<or>
             (now - timestamp r \<le> RATE_LIMIT_WINDOW \<and> r' = r\<lparr>count := count r + 1\<rparr>)"
    if g: "Map_get (rateLimitMap ?s) ip = Some r" and g': "Map_get (rateLimitMap ?s') ip = Some r'"
  proof (cases "counted req")
    case False
    with g g' show ?thesis by (simp add: middleware_not_counted)
  next
    case True
    with g' have "Map_get (snd (checkRateLimit now (client_ip req) (rateLimitMap ?s))) ip = Some r'"
      by (simp add: middleware_table)
    with g show ?thesis by (rule checkRateLimit_step)
  qed
  have u: "now - timestamp r \<le> RATE_LIMIT_WINDOW"
    if "Map_get (rateLimitMap ?s) ip = Some r" and "Map_get (rateLimitMap ?s') ip = Some r'"
      and "r' = r\<lparr>count := count r + 1\<rparr>"
  proof -
    from that(3) have c: "count r' = count r + 1" and ts: "timestamp r' = timestamp r"
      by simp_all
    from t[OF that(1,2)] c ts show ?thesis
      by (auto simp: RATE_LIMIT_WINDOW_def)
  qed
  from d t u show ?thesis by blast
qed

text \<open>
  From the empty table: after one request of 1.2.3.4 at 0 the table holds one record, and
  a second request at 60000 (the last instant of the window) increments it.
\<close>

theorem rate_table_invariant_witness:
  "distinct (map fst (rateLimitMap initial_state))
   \<and> rateLimitMap (snd (run None [(0, goals_request)] initial_state))
        = [(''1.2.3.4'', \<lparr>timestamp = 0, count = 1\<rparr>)]
   \<and> rateLimitMap (snd (middleware None 60000 goals_request
                           (snd (run None [(0, goals_request)] initial_state))))
        = [(''1.2.3.4'', \<lparr>timestamp = 0, count = 2\<rparr>)]
   \<and> \<lparr>timestamp = 0, count = 2\<rparr> = \<lparr>timestamp = 0, count = 1\<rparr>\<lparr>count := 1 + 1\<rparr>
   \<and> distinct (map fst (rateLimitMap (snd (run None [(0, goals_request)] initial_state))))
   \<and> 60000 - timestamp \<lparr>timestamp = 0, count = 1\<rparr> \<le> RATE_LIMIT_WINDOW"
proof -
  have d: "distinct (map fst (rateLimitMap initial_state))"
    by (simp add: initial_state_def)
  have s1: "snd (run None [(0, goals_request)] initial_state)
              = \<lparr>rateLimitMap = [(''1.2.3.4'', \<lparr>timestamp = 0, count = 1\<rparr>)],
                 console = [Log (''[INFO] DASHBOARD_API_KEY not set - allowing unauthenticated access to: /api/goals'')]\<rparr>"
    by (simp add: Let_def middleware_def goals_request_def initial_state_def isPublicRoute_def
          PUBLIC_ROUTES_def isProtectedRoute_def PROTECTED_ROUTES_def client_ip_def
          checkRateLimit_def)
  have s2: "rateLimitMap (snd (middleware None 60000 goals_request
                           (snd (run None [(0, goals_request)] initial_state))))
        = [(''1.2.3.4'', \<lparr>timestamp = 0, count = 2\<rparr>)]"
    unfolding s1
    by (simp add: Let_def middleware_def goals_request_def isPublicRoute_def
          PUBLIC_ROUTES_def isProtectedRoute_def PROTECTED_ROUTES_def client_ip_def
          checkRateLimit_def RATE_LIMIT_WINDOW_def RATE_LIMIT_MAX_def)
  have g: "Map_get (rateLimitMap (snd (run None [(0, goals_request)] initial_state))) ''1.2.3.4''
             = Some \<lparr>timestamp = 0, count = 1\<rparr>"
    unfolding s1 by simp
  have g': "Map_get (rateLimitMap (snd (middleware None 60000 goals_request
                           (snd (run None [(0, goals_request)] initial_state))))) ''1.2.3.4''
             = Some \<lparr>timestamp = 0, count = 2\<rparr>"
    unfolding s2 by simp
  have i: "\<lparr>timestamp = 0, count = 2\<rparr> = \<lparr>timestamp = 0, count = 1\<rparr>\<lparr>count := 1 + 1\<rparr>"
    by simp
  have i': "\<lparr>timestamp = 0, count = 2\<rparr>
              = \<lparr>timestamp = 0, count = 1\<rparr>\<lparr>count := count \<lparr>timestamp = 0, count = 1\<rparr> + 1\<rparr>"
    by simp
  from rate_table_invariant[OF d, of None "[(0, goals_request)]" "''1.2.3.4''"
      "\<lparr>timestamp = 0, count = 1\<rparr>" 60000 goals_request "\<lparr>timestamp = 0, count = 2\<rparr>"]
  have "distinct (map fst (rateLimitMap (snd (run None [(0, goals_request)] initial_state))))"
    and "60000 - timestamp \<lparr>timestamp = 0, count = 1\<rparr> \<le> RATE_LIMIT_WINDOW"
    using g g' i' by blast+
  with d s1 s2 i show ?thesis by simp
qed

text \<open>
  C10 (an unauthorized request has consumed a slot). The rate limiter runs before the
  credential check. Whenever the gate answers with status 401, the request was to a
  protected route and the record of its identifier after the invocation is the record the
  rate limiter wrote for it: window start \<open>now\<close> and count 1 when there was no record or its
  window had expired, the former record with its count incremented otherwise.
\<close>

theorem unauthorized_consumes_slot:
  assumes "fst (middleware e now req s) = Json msg 401 hs"
  shows "isProtectedRoute (pathname req) \<and>
         Map_get (rateLimitMap (snd (middleware e now req s))) (client_ip req) =
           Some (case Map_get (rateLimitMap s) (client_ip req) of
                   None \<Rightarrow> \<lparr>timestamp = now, count = 1\<rparr>
                 | Some r \<Rightarrow> if now - timestamp r > RATE_LIMIT_WINDOW
                            then \<lparr>timestamp = now, count = 1\<rparr>
                            else r\<lparr>count := count r + 1\<rparr>)"
proof -
  from assms have p: "isProtectedRoute (pathname req)"
    and ok: "fst (checkRateLimit now (client_ip req) (rateLimitMap s))"
    by (auto simp: middleware_def Let_def rate_limited_response_def
          split: prod.splits if_splits)
  from p have "counted req" by (rule protected_counted)
  then have "rateLimitMap (snd (middleware e now req s))
               = snd (checkRateLimit now (client_ip req) (rateLimitMap s))"
    by (rule middleware_table)
  with ok p show ?thesis
    by (auto simp: checkRateLimit_def Map_get_set split: option.splits if_splits)
qed

text \<open>
  A wrong key from an identifier that has used 99 requests takes the 100th slot; the
  next request of that identifier, even with the right key, is rejected as rate-limited.
\<close>

theorem unauthorized_consumes_slot_witness:
  "fst (middleware (Some ''abc123'') 7 (settings_request (Some ''wrong'') None)
         (used_state ''unknown'' 99)) = Json ''Unauthorized - Invalid or missing API key'' 401 []
   \<and> client_ip (settings_request (Some ''wrong'') None) = ''unknown''
   \<and> Map_get (rateLimitMap (used_state ''unknown'' 99)) ''unknown''
        = Some \<lparr>timestamp = 0, count = 99\<rparr>
   \<and> Map_get (rateLimitMap (snd (middleware (Some ''abc123'') 7
         (settings_request (Some ''wrong'') None) (used_state ''unknown'' 99)))) ''unknown''
        = Some \<lparr>timestamp = 0, count = 100\<rparr>
   \<and> fst (middleware (Some ''abc123'') 8 (settings_request (Some ''abc123'') None)
         (snd (middleware (Some ''abc123'') 7 (settings_request (Some ''wrong'') None)
                (used_state ''unknown'' 99)))) = rate_limited_response"
proof -
  have a: "fst (middleware (Some ''abc123'') 7 (settings_request (Some ''wrong'') None)
         (used_state ''unknown'' 99)) = Json ''Unauthorized - Invalid or missing API key'' 401 []"
    by (simp add: Let_def middleware_def settings_request_def used_state_def isPublicRoute_def
          PUBLIC_ROUTES_def isProtectedRoute_def PROTECTED_ROUTES_def client_ip_def
          checkRateLimit_def supplied_key_def unauthorized_response_def
          RATE_LIMIT_WINDOW_def RATE_LIMIT_MAX_def)
  have i: "client_ip (settings_request (Some ''wrong'') None) = ''unknown''"
    by (simp add: client_ip_def settings_request_def)
  have g: "Map_get (rateLimitMap (used_state ''unknown'' 99)) ''unknown''
        = Some \<lparr>timestamp = 0, count = 99\<rparr>"
    by (simp add: used_state_def)
  have n: "fst (middleware (Some ''abc123'') 8 (settings_request (Some ''abc123'') None)
         (snd (middleware (Some ''abc123'') 7 (settings_request (Some ''wrong'') None)
                (used_state ''unknown'' 99)))) = rate_limited_response"
    by (simp add: Let_def middleware_def settings_request_def used_state_def isPublicRoute_def
          PUBLIC_ROUTES_def isProtectedRoute_def PROTECTED_ROUTES_def client_ip_def
          checkRateLimit_def supplied_key_def unauthorized_response_def
          RATE_LIMIT_WINDOW_def RATE_LIMIT_MAX_def)
  from unauthorized_consumes_slot[OF a] a i g n
  show ?thesis by (simp add: RATE_LIMIT_WINDOW_def)
qed

end
